theory Spec2Isabelle
  imports Complex_Main "HOL-Library.Multiset" "HOL-Library.Sublist"
begin

section \<open>The aggregate flamegraph panel\<close>

text \<open>
  The component \<^verbatim>\<open>AggregateFlamegraphPanel\<close> of
  \<^verbatim>\<open>static/app/components/profiling/aggregateFlamegraphPanel.tsx\<close> is a function from its
  props and the values its hooks return to an element tree.  The element tree is modelled
  by the record \<open>Rendered\<close>, which keeps every prop the component computes: the argument of
  the query hook, the props of \<^verbatim>\<open>ProfileGroupProvider\<close>, the initial state of
  \<^verbatim>\<open>FlamegraphStateProvider\<close> and the element chosen by the conditional in the panel body.
\<close>

subsection \<open>Data\<close>

text \<open>The class \<^verbatim>\<open>Frame\<close> of \<^verbatim>\<open>sentry/utils/profiling/frame\<close>; the panel reads
  \<^verbatim>\<open>is_application\<close> only.\<close>

record Frame =
  name :: string
  file' :: string
  line :: "nat option"
  is_application :: bool

text \<open>The raw frame descriptors of a query result, and the part of the result the panel
  reads: \<^verbatim>\<open>data.shared.frames\<close>.\<close>

record RawFrame =
  raw_name :: string
  raw_file :: "string option"
  raw_line :: "nat option"
  isApplicationHint :: "bool option"

record Shared =
  frames :: "RawFrame list"

record Schema =
  shared :: Shared

text \<open>\<^verbatim>\<open>selection\<close> of \<^verbatim>\<open>usePageFilters()\<close>; the type of \<^verbatim>\<open>datetime\<close> is a parameter.\<close>

record 'dt Selection =
  environments :: "string list"
  projects :: "int list"
  datetime :: 'dt

text \<open>The argument object and the result of \<^verbatim>\<open>useAggregateFlamegraphQuery\<close>.
  \<open>data = None\<close> is \<^verbatim>\<open>undefined\<close>.\<close>

record 'dt QueryParams =
  q_transaction :: string
  q_environments :: "string list"
  q_projects :: "int list"
  q_datetime :: 'dt

record QueryResult =
  data :: "Schema option"
  isLoading :: bool

text \<open>What the hooks of the component read: the page filters, the browser's local storage
  (the boolean values stored under a key) and the query layer, a function of the query
  parameters.\<close>

record 'dt Hooks =
  selection :: "'dt Selection"
  localStorage :: "string \<rightharpoonup> bool"
  aggregateFlamegraphQuery :: "'dt QueryParams \<Rightarrow> QueryResult"

text \<open>\<^verbatim>\<open>preferences\<close> of the initial flamegraph state, with the string literals of the
  source.\<close>

record Preferences =
  sorting :: string
  view :: string

text \<open>The three elements of the conditional in the panel body.
  \<^verbatim>\<open>DeprecatedAggregateFlamegraph\<close> carries its \<^verbatim>\<open>hideSystemFrames\<close> prop.\<close>

datatype Body =
  LoadingIndicator
  | EmptyStateWarning
  | DeprecatedAggregateFlamegraph bool

record 'dt Rendered =
  queryArgs :: "'dt QueryParams"
  providerType :: string
  input :: "Schema option"
  traceID :: string
  frameFilter :: "(Frame \<Rightarrow> bool) option"
  initialState :: Preferences
  body :: Body

subsection \<open>The component\<close>

text \<open>The hook \<^verbatim>\<open>useLocalStorageState(key, initialState)\<close> is imported by the panel; its
  contract is the stored value when the key holds one and the initial state otherwise.  The
  setter it returns stores the new value under the key.\<close>

definition useLocalStorageState :: "(string \<rightharpoonup> bool) \<Rightarrow> string \<Rightarrow> bool \<Rightarrow> bool" where
  "useLocalStorageState store key initial =
     (case store key of None \<Rightarrow> initial | Some v \<Rightarrow> v)"

definition storageKey :: string where
  "storageKey = ''profiling-flamegraph-collapsed-frames''"

definition setHideSystemFrames :: "bool \<Rightarrow> 'dt Hooks \<Rightarrow> 'dt Hooks" where
  "setHideSystemFrames v h = h\<lparr>localStorage := (localStorage h)(storageKey \<mapsto> v)\<rparr>"

text \<open>\<^verbatim>\<open>function applicationFrameOnly(frame: Frame): boolean\<close>\<close>

definition applicationFrameOnly :: "Frame \<Rightarrow> bool" where
  "applicationFrameOnly frame = is_application frame"

text \<open>\<^verbatim>\<open>const isEmpty = data?.shared.frames.length === 0\<close>: for an undefined \<^verbatim>\<open>data\<close> the
  optional chain is \<^verbatim>\<open>undefined\<close>, which is not strictly equal to \<^verbatim>\<open>0\<close>.\<close>

definition isEmpty :: "Schema option \<Rightarrow> bool" where
  "isEmpty d = (case d of None \<Rightarrow> False | Some s \<Rightarrow> length (frames (shared s)) = 0)"

definition hideSystemFramesOf :: "'dt Hooks \<Rightarrow> bool" where
  "hideSystemFramesOf h = useLocalStorageState (localStorage h) storageKey True"

definition queryParamsOf :: "string \<Rightarrow> 'dt Hooks \<Rightarrow> 'dt QueryParams" where
  "queryParamsOf transaction h =
     \<lparr>q_transaction = transaction,
      q_environments = environments (selection h),
      q_projects = projects (selection h),
      q_datetime = datetime (selection h)\<rparr>"

definition AggregateFlamegraphPanel :: "string \<Rightarrow> 'dt Hooks \<Rightarrow> 'dt Rendered" where
  "AggregateFlamegraphPanel transaction h =
     (let hideSystemFrames = hideSystemFramesOf h;
          args = queryParamsOf transaction h;
          result = aggregateFlamegraphQuery h args;
          empty = isEmpty (data result)
      in \<lparr>queryArgs = args,
          providerType = ''flamegraph'',
          input = data result,
          traceID = '''',
          frameFilter = (if hideSystemFrames then Some applicationFrameOnly else None),
          initialState = \<lparr>sorting = ''alphabetical'', view = ''bottom up''\<rparr>,
          body = (if isLoading result then LoadingIndicator
                  else if empty then EmptyStateWarning
                  else DeprecatedAggregateFlamegraph hideSystemFrames)\<rparr>)"

section \<open>The aggregation core\<close>

text \<open>
  The panel hands the query result to \<^verbatim>\<open>ProfileGroupProvider\<close> and renders
  \<^verbatim>\<open>DeprecatedAggregateFlamegraph\<close>; both are imported, and the code that merges the
  samples of the result into a weighted call tree and projects that tree is not part of the
  sources at hand.  This section models that code from the specification (sections 3, 4.3,
  4.4, 4.5 and 7).  Weights are real numbers, as the specification has them (\<open>the domain of
  non-negative reals\<close>), and no depth or node cap is configured.
\<close>

subsection \<open>Samples and tree nodes\<close>

text \<open>Modelled from the spec: the frame identity assigned by the Frame Table, \<open>a stable
  integer/opaque id\<close>.\<close>

type_synonym FrameId = nat

text \<open>Modelled from the spec: the weight a sample reports.  It is a finite number or one of
  the non-finite values the aggregator has to reject.\<close>

datatype SampleWeight = Finite real | PosInfinity | NegInfinity | NotANumber

text \<open>Modelled from the spec: a normalized sample, the pair \<open>(FrameId[] stackPath, weight)\<close>
  with the stack ordered root to leaf.\<close>

type_synonym Sample = "FrameId list \<times> SampleWeight"

text \<open>Modelled from the spec: a Tree Node with its accumulated \<open>selfWeight\<close> and
  \<open>totalWeight\<close> and its children, a mapping from frame id to child node ordered by first
  insertion.  The frame id of a node is the key under which its parent holds it; the root
  has no frame.  The parent back-reference serves navigation only and is left out: a node
  is identified by its path from the root.\<close>

datatype TreeNode =
  Node (selfWeight: real) (totalWeight: real) (children: "(FrameId \<times> TreeNode) list")

text \<open>Modelled from the spec: the implicit root before any sample, and a freshly inserted
  child: a node with zero weights and no children.\<close>

definition emptyNode :: TreeNode where
  "emptyNode = Node 0 0 []"

subsection \<open>Tree Aggregator\<close>

text \<open>Modelled from the spec: one step of the descent, \<open>inserting child nodes for frame ids
  not yet present at that position\<close>.  The child under frame id \<open>x\<close> is replaced by its
  image under \<open>g\<close>; when there is none, a fresh child is appended.\<close>

fun updateChild :: "FrameId \<Rightarrow> (TreeNode \<Rightarrow> TreeNode) \<Rightarrow> (FrameId \<times> TreeNode) list
    \<Rightarrow> (FrameId \<times> TreeNode) list" where
  "updateChild x g [] = [(x, g emptyNode)]"
| "updateChild x g ((k, c) # cs) =
     (if k = x then (k, g c) # cs else (k, c) # updateChild x g cs)"

text \<open>Modelled from the spec: merging one stack path of weight \<open>w\<close> into the tree,
  \<open>incrementing totalWeight of every node along the path by the sample's weight, and
  incrementing selfWeight only of the path's terminal (leaf) node\<close>.\<close>

primrec insertPath :: "FrameId list \<Rightarrow> real \<Rightarrow> TreeNode \<Rightarrow> TreeNode" where
  "insertPath [] w n = Node (selfWeight n + w) (totalWeight n + w) (children n)"
| "insertPath (x # xs) w n =
     Node (selfWeight n) (totalWeight n + w) (updateChild x (insertPath xs w) (children n))"

text \<open>Modelled from the spec: a negative weight, the first way a sample is malformed
  (sections 4.3 and 7).  The aggregator's test is not in the panel's source file.\<close>

definition negative :: "SampleWeight \<Rightarrow> bool" where
  "negative w = (case w of Finite r \<Rightarrow> r < 0 | NegInfinity \<Rightarrow> True | _ \<Rightarrow> False)"

text \<open>Modelled from the spec: a non-finite weight, the second way a sample is malformed.\<close>

definition nonFinite :: "SampleWeight \<Rightarrow> bool" where
  "nonFinite w = (case w of Finite r \<Rightarrow> False | _ \<Rightarrow> True)"

text \<open>Modelled from the spec: the kind \<open>MalformedSample\<close> of section 7, \<open>non-finite/negative
  weight, or empty stack\<close>.\<close>

definition malformed :: "Sample \<Rightarrow> bool" where
  "malformed s = (negative (snd s) \<or> nonFinite (snd s) \<or> fst s = [])"

text \<open>Modelled from the spec: the number a finite weight stands for (only read for samples
  that are not malformed).\<close>

fun weightOf :: "SampleWeight \<Rightarrow> real" where
  "weightOf (Finite w) = w"
| "weightOf _ = 0"

text \<open>Modelled from the spec: an entry of the diagnostics of an aggregation; a rejected
  sample is reported as \<open>MalformedSample\<close>.\<close>

datatype Diagnostic = MalformedSample Sample

text \<open>Modelled from the spec: the aggregation result, the tree together with the
  diagnostics.\<close>

record AggregationResult =
  tree :: TreeNode
  diagnostics :: "Diagnostic list"

text \<open>Modelled from the spec: the step of the streaming fold.  A malformed sample is
  reported in the diagnostics and the tree is left as it is; any other sample is merged.\<close>

definition ingest :: "Sample \<Rightarrow> AggregationResult \<Rightarrow> AggregationResult" where
  "ingest s r =
     (if malformed s then r\<lparr>diagnostics := diagnostics r @ [MalformedSample s]\<rparr>
      else r\<lparr>tree := insertPath (fst s) (weightOf (snd s)) (tree r)\<rparr>)"

text \<open>Modelled from the spec: the Tree Aggregator's \<open>aggregate(samples) -> Tree\<close> of section
  4.3, whose code is not in the panel's source file: one pass over the samples starting
  from the implicit root.\<close>

definition aggregate :: "Sample list \<Rightarrow> AggregationResult" where
  "aggregate samples = fold ingest samples \<lparr>tree = emptyNode, diagnostics = []\<rparr>"

subsection \<open>View Projector\<close>

text \<open>Modelled from the spec: the two orientations of a view.\<close>

datatype Orientation = topDown | bottomUp

text \<open>Modelled from the spec: the two sort orders of a view.\<close>

datatype SortOrder = alphabetical | weight

text \<open>Modelled from the spec: the options of \<open>project\<close>, with an optional frame filter, a
  predicate on frames.\<close>

record ProjectOptions =
  orientation :: Orientation
  sort' :: SortOrder
  frameFilter' :: "(Frame \<Rightarrow> bool) option"

text \<open>Modelled from the spec: every node of a tree with its path from the root, parents
  before children.\<close>

fun located :: "FrameId list \<Rightarrow> TreeNode \<Rightarrow> (FrameId list \<times> TreeNode) list" where
  "located p (Node s t cs) =
     (p, Node s t cs) # concat (map (\<lambda>kc. located (p @ [fst kc]) (snd kc)) cs)"

text \<open>Modelled from the spec: a second aggregation pass.  Each listed node contributes its
  self weight along its path as transformed by \<open>f\<close>, \<open>merging weights of identical
  prefixes exactly as in aggregation\<close>.\<close>

definition reaggregate :: "(FrameId list \<Rightarrow> FrameId list) \<Rightarrow> (FrameId list \<times> TreeNode) list
    \<Rightarrow> TreeNode" where
  "reaggregate f ps = fold (\<lambda>pn. insertPath (f (fst pn)) (selfWeight (snd pn))) ps emptyNode"

text \<open>Modelled from the spec: a node where a sample ends: it carries self weight or has no
  children.\<close>

definition leafOccurring :: "FrameId list \<times> TreeNode \<Rightarrow> bool" where
  "leafOccurring pn = (selfWeight (snd pn) \<noteq> 0 \<or> children (snd pn) = [])"

text \<open>Modelled from the spec: the \<open>bottomUp\<close> orientation, \<open>a second aggregation pass over
  reversed paths\<close> under a new virtual root.\<close>

definition invert :: "TreeNode \<Rightarrow> TreeNode" where
  "invert t = reaggregate rev (filter leafOccurring (located [] t))"

text \<open>Modelled from the spec: the frame filter.  The frames that fail the predicate are
  taken out of every path, so the self weight of an elided node arrives at its nearest
  surviving ancestor, and at the root when no ancestor survives.\<close>

definition elide :: "(FrameId \<Rightarrow> bool) \<Rightarrow> TreeNode \<Rightarrow> TreeNode" where
  "elide keep t = reaggregate (filter keep) (located [] t)"

text \<open>Modelled from the spec: the code unit of a character without regard to case, the
  upper-case letters mapped to lower case.\<close>

definition lowerCode :: "char \<Rightarrow> nat" where
  "lowerCode c = (let n = (of_char c :: nat) in if 65 \<le> n \<and> n \<le> 90 then n + 32 else n)"

text \<open>Modelled from the spec: the alphabetical order of frame names, the lexicographic order
  on their code units.\<close>

fun codesLess :: "nat list \<Rightarrow> nat list \<Rightarrow> bool" where
  "codesLess [] [] = False"
| "codesLess [] (d # ds) = True"
| "codesLess (c # cs) [] = False"
| "codesLess (c # cs) (d # ds) = (c < d \<or> (c = d \<and> codesLess cs ds))"

text \<open>Modelled from the spec: the two sibling orders.  \<open>alphabetical\<close> orders by frame name
  without regard to case, \<open>weight\<close> by descending total weight; ties are broken by frame
  id.  The frame of an id is read from the Frame Table \<open>frameOf\<close>.\<close>

definition before :: "SortOrder \<Rightarrow> (FrameId \<Rightarrow> Frame) \<Rightarrow> FrameId \<times> TreeNode
    \<Rightarrow> FrameId \<times> TreeNode \<Rightarrow> bool" where
  "before order frameOf a b =
     (case order of
        alphabetical \<Rightarrow>
          (let na = map lowerCode (name (frameOf (fst a)));
               nb = map lowerCode (name (frameOf (fst b)))
           in codesLess na nb \<or> (na = nb \<and> fst a \<le> fst b))
      | weight \<Rightarrow>
          totalWeight (snd a) > totalWeight (snd b) \<or>
          (totalWeight (snd a) = totalWeight (snd b) \<and> fst a \<le> fst b))"

text \<open>Modelled from the spec: placing one sibling into a list of siblings that is already
  in order.\<close>

fun insertSibling :: "('a \<Rightarrow> 'a \<Rightarrow> bool) \<Rightarrow> 'a \<Rightarrow> 'a list \<Rightarrow> 'a list" where
  "insertSibling le x [] = [x]"
| "insertSibling le x (y # ys) = (if le x y then x # y # ys else y # insertSibling le x ys)"

text \<open>Modelled from the spec: the \<open>sort\<close> option, ordering the siblings at every level of a
  tree.\<close>

fun sortSiblings :: "(FrameId \<times> TreeNode \<Rightarrow> FrameId \<times> TreeNode \<Rightarrow> bool) \<Rightarrow> TreeNode
    \<Rightarrow> TreeNode" where
  "sortSiblings le (Node s t cs) =
     Node s t (foldr (insertSibling le) (map (\<lambda>kc. (fst kc, sortSiblings le (snd kc))) cs) [])"

text \<open>Modelled from the spec: the View Projector's
  \<open>project(tree, {orientation, sort, frameFilter?})\<close> of section 4.4, whose code is not in
  the panel's source file.  The result is the root of the view: its children are the \<open>ViewNode[]\<close> of the contract and
  its total weight is the \<open>totalWeight\<close> of the summary.  The aggregated tree is an
  argument and is not changed.\<close>

definition project :: "(FrameId \<Rightarrow> Frame) \<Rightarrow> TreeNode \<Rightarrow> ProjectOptions \<Rightarrow> TreeNode" where
  "project frameOf t opts =
     (let oriented = (case orientation opts of topDown \<Rightarrow> t | bottomUp \<Rightarrow> invert t);
          filtered = (case frameFilter' opts of
                        None \<Rightarrow> oriented
                      | Some p \<Rightarrow> elide (\<lambda>i. p (frameOf i)) oriented)
      in sortSiblings (before (sort' opts) frameOf) filtered)"

subsection \<open>Observing a tree\<close>

text \<open>The functions of this subsection state what is observed of a tree: all its nodes,
  the invariant of section 3 at every node, sibling keys without duplicates, and the node
  found by following a path from the root.\<close>

fun nodes :: "TreeNode \<Rightarrow> TreeNode list" where
  "nodes (Node s t cs) = Node s t cs # concat (map (\<lambda>kc. nodes (snd kc)) cs)"

fun wellWeighted :: "TreeNode \<Rightarrow> bool" where
  "wellWeighted (Node s t cs) =
     (t = s + sum_list (map (\<lambda>kc. totalWeight (snd kc)) cs) \<and>
      (\<forall>kc \<in> set cs. wellWeighted (snd kc)))"

fun distinctKeys :: "TreeNode \<Rightarrow> bool" where
  "distinctKeys (Node s t cs) =
     (distinct (map fst cs) \<and> (\<forall>kc \<in> set cs. distinctKeys (snd kc)))"

fun nodeAt :: "TreeNode \<Rightarrow> FrameId list \<Rightarrow> TreeNode option" where
  "nodeAt n [] = Some n"
| "nodeAt n (x # xs) =
     (case map_of (children n) x of None \<Rightarrow> None | Some c \<Rightarrow> nodeAt c xs)"

text \<open>The structure and the weights of a tree, keyed by path: which paths lead to a node,
  and the self and total weight found there.\<close>

definition weightsAt :: "TreeNode \<Rightarrow> FrameId list \<Rightarrow> (real \<times> real) option" where
  "weightsAt t p = map_option (\<lambda>n. (selfWeight n, totalWeight n)) (nodeAt t p)"

definition selfAt :: "TreeNode \<Rightarrow> FrameId list \<Rightarrow> real" where
  "selfAt t p = (case nodeAt t p of None \<Rightarrow> 0 | Some n \<Rightarrow> selfWeight n)"

definition totalAt :: "TreeNode \<Rightarrow> FrameId list \<Rightarrow> real" where
  "totalAt t p = (case nodeAt t p of None \<Rightarrow> 0 | Some n \<Rightarrow> totalWeight n)"

definition present :: "TreeNode \<Rightarrow> FrameId list \<Rightarrow> bool" where
  "present t p = (nodeAt t p \<noteq> None)"

definition childOr :: "TreeNode \<Rightarrow> FrameId \<Rightarrow> TreeNode" where
  "childOr n x = (case map_of (children n) x of None \<Rightarrow> emptyNode | Some c \<Rightarrow> c)"

text \<open>The insertion order of siblings is not meaningful (section 3).  \<open>canonical\<close> lists the
  children of every node by ascending frame id and changes nothing else, so two trees have
  the same canonical form exactly when they differ in the order of siblings at most.\<close>

fun canonical :: "TreeNode \<Rightarrow> TreeNode" where
  "canonical (Node s t cs) =
     Node s t (sort_key fst (map (\<lambda>kc. (fst kc, canonical (snd kc))) cs))"

text \<open>The samples the aggregator accepts, and the tree they build.\<close>

definition accepted :: "Sample list \<Rightarrow> Sample list" where
  "accepted samples = filter (\<lambda>s. \<not> malformed s) samples"

definition insertAll :: "Sample list \<Rightarrow> TreeNode \<Rightarrow> TreeNode" where
  "insertAll ss t = fold (\<lambda>s. insertPath (fst s) (weightOf (snd s))) ss t"

subsection \<open>Navigation State\<close>















subsection \<open>Example inputs\<close>

text \<open>A frame table with two application frames (ids 1 and 3) and two system frames, and
  a batch of four samples.\<close>

definition exampleFrames :: "FrameId \<Rightarrow> Frame" where
  "exampleFrames i =
     (if i = 1
        then \<lparr>name = ''main'', file' = ''app.py'', line = Some 1, is_application = True\<rparr>
      else if i = 2
        then \<lparr>name = ''read'', file' = ''libc.so'', line = None, is_application = False\<rparr>
      else if i = 3
        then \<lparr>name = ''Handle'', file' = ''app.py'', line = Some 9, is_application = True\<rparr>
      else \<lparr>name = ''poll'', file' = ''libc.so'', line = None, is_application = False\<rparr>)"

definition exampleSamples :: "Sample list" where
  "exampleSamples =
     [([1, 2, 3], Finite 1), ([1, 2, 4], Finite 2), ([2, 3], Finite 4), ([4], Finite 8)]"

text \<open>A batch with three malformed samples among two well-formed ones.\<close>

definition exampleBatch :: "Sample list" where
  "exampleBatch =
     [([1, 2, 3], Finite 1), ([], Finite 3), ([5], NotANumber), ([1, 2, 4], Finite 2),
      ([1], Finite (- 1))]"

text \<open>Concrete hook values for evaluating the component: a page-filter selection, a local
  storage and a query layer that answers every query with the given result.\<close>

definition exampleHooks :: "(string \<rightharpoonup> bool) \<Rightarrow> QueryResult \<Rightarrow> string Hooks" where
  "exampleHooks store r =
     \<lparr>selection = \<lparr>environments = [''prod''], projects = [1], datetime = ''14d''\<rparr>,
      localStorage = store,
      aggregateFlamegraphQuery = (\<lambda>_. r)\<rparr>"

definition exampleFrame :: RawFrame where
  "exampleFrame =
     \<lparr>raw_name = ''main'', raw_file = None, raw_line = None, isApplicationHint = None\<rparr>"

definition resultWith :: "RawFrame list \<Rightarrow> bool \<Rightarrow> QueryResult" where
  "resultWith fs loading = \<lparr>data = Some \<lparr>shared = \<lparr>frames = fs\<rparr>\<rparr>, isLoading = loading\<rparr>"

definition resultAbsent :: "bool \<Rightarrow> QueryResult" where
  "resultAbsent loading = \<lparr>data = None, isLoading = loading\<rparr>"



section \<open>Properties of the panel\<close>

lemma body_cases:
  "body (AggregateFlamegraphPanel tr h) =
     (if isLoading (aggregateFlamegraphQuery h (queryParamsOf tr h)) then LoadingIndicator
      else if isEmpty (data (aggregateFlamegraphQuery h (queryParamsOf tr h)))
        then EmptyStateWarning
      else DeprecatedAggregateFlamegraph (hideSystemFramesOf h))"
  by (simp add: AggregateFlamegraphPanel_def Let_def)

lemma frameFilter_cases:
  "frameFilter (AggregateFlamegraphPanel tr h) =
     (if hideSystemFramesOf h then Some applicationFrameOnly else None)"
  by (simp add: AggregateFlamegraphPanel_def Let_def)

lemma input_eq:
  "input (AggregateFlamegraphPanel tr h) =
     data (aggregateFlamegraphQuery h (queryParamsOf tr h))"
  by (simp add: AggregateFlamegraphPanel_def Let_def)


lemma initialState_eq:
  "initialState (AggregateFlamegraphPanel tr h) =
     \<lparr>sorting = ''alphabetical'', view = ''bottom up''\<rparr>"
  by (simp add: AggregateFlamegraphPanel_def Let_def)

lemma hideSystemFramesOf_set [simp]: "hideSystemFramesOf (setHideSystemFrames v h) = v"
  by (simp add: hideSystemFramesOf_def setHideSystemFrames_def useLocalStorageState_def)

lemma queryParamsOf_set [simp]:
  "queryParamsOf tr (setHideSystemFrames v h) = queryParamsOf tr h"
  by (simp add: queryParamsOf_def setHideSystemFrames_def)

lemma query_set [simp]:
  "aggregateFlamegraphQuery (setHideSystemFrames v h) = aggregateFlamegraphQuery h"
  by (simp add: setHideSystemFrames_def)

lemma exampleHooks_query [simp]:
  "aggregateFlamegraphQuery (exampleHooks store r) args = r"
  by (simp add: exampleHooks_def)

lemma exampleHooks_hide_empty [simp]: "hideSystemFramesOf (exampleHooks Map.empty r) = True"
  by (simp add: exampleHooks_def hideSystemFramesOf_def useLocalStorageState_def)

lemma exampleHooks_hide_stored [simp]:
  "hideSystemFramesOf (exampleHooks [storageKey \<mapsto> v] r) = v"
  by (simp add: exampleHooks_def hideSystemFramesOf_def useLocalStorageState_def)

text \<open>
  \<^bold>\<open>C1.\<close> When the query has returned a result object, the panel shows the empty-state
  warning exactly when the query is not loading and the result's shared frames list has
  length zero, and then the flamegraph is not rendered; while the query is loading the
  loading indicator is shown whatever the frames list holds.
\<close>

theorem C1_empty_state_iff_no_frames:
  assumes "aggregateFlamegraphQuery h (queryParamsOf tr h) = r"
    and "data r = Some d"
  shows "isEmpty (data r) = (length (frames (shared d)) = 0) \<and>
         body (AggregateFlamegraphPanel tr h) =
           (if isLoading r then LoadingIndicator
            else if length (frames (shared d)) = 0 then EmptyStateWarning
            else DeprecatedAggregateFlamegraph (hideSystemFramesOf h))"
  using assms by (simp add: body_cases isEmpty_def)

theorem C1_witness:
  "body (AggregateFlamegraphPanel ''tx'' (exampleHooks Map.empty (resultWith [] False)))
     = EmptyStateWarning
   \<and> body (AggregateFlamegraphPanel ''tx''
        (exampleHooks Map.empty (resultWith [exampleFrame] False)))
     = DeprecatedAggregateFlamegraph True
   \<and> body (AggregateFlamegraphPanel ''tx'' (exampleHooks Map.empty (resultWith [] True)))
     = LoadingIndicator"
  using C1_empty_state_iff_no_frames
      [of "exampleHooks Map.empty (resultWith [] False)" "''tx''" "resultWith [] False"
          "\<lparr>shared = \<lparr>frames = []\<rparr>\<rparr>"]
    C1_empty_state_iff_no_frames
      [of "exampleHooks Map.empty (resultWith [exampleFrame] False)" "''tx''"
          "resultWith [exampleFrame] False" "\<lparr>shared = \<lparr>frames = [exampleFrame]\<rparr>\<rparr>"]
    C1_empty_state_iff_no_frames
      [of "exampleHooks Map.empty (resultWith [] True)" "''tx''" "resultWith [] True"
          "\<lparr>shared = \<lparr>frames = []\<rparr>\<rparr>"]
  by (simp add: resultWith_def)

text \<open>
  \<^bold>\<open>C2 (as the code has it).\<close> On first load, when the local storage holds no value under
  the panel's key, \<^verbatim>\<open>hideSystemFrames\<close> takes the initial value \<^verbatim>\<open>true\<close> that the panel
  passes to \<^verbatim>\<open>useLocalStorageState\<close>: the application-frames-only filter is enabled, the
  provider receives the predicate \<^verbatim>\<open>applicationFrameOnly\<close>, and the flamegraph element
  receives \<^verbatim>\<open>hideSystemFrames = true\<close>.
\<close>

theorem C2_filter_enabled_on_first_load:
  assumes "localStorage h storageKey = None"
  shows "hideSystemFramesOf h = True \<and>
         frameFilter (AggregateFlamegraphPanel tr h) = Some applicationFrameOnly"
  using assms
  by (simp add: frameFilter_cases hideSystemFramesOf_def useLocalStorageState_def)

theorem C2_witness:
  "localStorage (exampleHooks Map.empty (resultWith [exampleFrame] False)) storageKey = None
   \<and> frameFilter (AggregateFlamegraphPanel ''tx''
        (exampleHooks Map.empty (resultWith [exampleFrame] False)))
     = Some applicationFrameOnly"
  using C2_filter_enabled_on_first_load
      [of "exampleHooks Map.empty (resultWith [exampleFrame] False)" "''tx''"]
  by (simp add: exampleHooks_def)

text \<open>The claim as the specification words it (no frame filter on first load) fails at the
  empty local storage.\<close>

theorem C2_counterexample:
  "localStorage (exampleHooks Map.empty (resultWith [exampleFrame] False)) storageKey = None
   \<and> frameFilter (AggregateFlamegraphPanel ''tx''
        (exampleHooks Map.empty (resultWith [exampleFrame] False)))
     \<noteq> None
   \<and> body (AggregateFlamegraphPanel ''tx''
        (exampleHooks Map.empty (resultWith [exampleFrame] False)))
     = DeprecatedAggregateFlamegraph True"
  by (simp add: frameFilter_cases body_cases exampleHooks_def resultWith_def isEmpty_def
      exampleHooks_hide_empty [unfolded exampleHooks_def])

text \<open>
  \<^bold>\<open>C3.\<close> When \<^verbatim>\<open>hideSystemFrames\<close> is true the provider's \<^verbatim>\<open>frameFilter\<close> is a predicate
  that accepts a frame exactly when its \<^verbatim>\<open>is_application\<close> flag is true; when it is false
  the provider receives no predicate (\<^verbatim>\<open>undefined\<close>).
\<close>

theorem C3_frame_filter_is_application:
  "(hideSystemFramesOf h \<longrightarrow>
      (\<exists>p. frameFilter (AggregateFlamegraphPanel tr h) = Some p \<and>
           (\<forall>frame. p frame = is_application frame))) \<and>
   (\<not> hideSystemFramesOf h \<longrightarrow> frameFilter (AggregateFlamegraphPanel tr h) = None)"
  by (simp add: frameFilter_cases applicationFrameOnly_def)

theorem C3_witness:
  "(\<exists>p. frameFilter (AggregateFlamegraphPanel ''tx''
          (exampleHooks [storageKey \<mapsto> True] (resultWith [exampleFrame] False))) = Some p
        \<and> p \<lparr>name = ''main'', file' = ''app.py'', line = Some 3, is_application = True\<rparr>
        \<and> \<not> p \<lparr>name = ''read'', file' = ''libc.so'', line = None, is_application = False\<rparr>)
   \<and> frameFilter (AggregateFlamegraphPanel ''tx''
        (exampleHooks [storageKey \<mapsto> False] (resultWith [exampleFrame] False))) = None"
  using C3_frame_filter_is_application
      [of "exampleHooks [storageKey \<mapsto> True] (resultWith [exampleFrame] False)" "''tx''"]
    C3_frame_filter_is_application
      [of "exampleHooks [storageKey \<mapsto> False] (resultWith [exampleFrame] False)" "''tx''"]
  by auto

text \<open>
  \<^bold>\<open>C5.\<close> The initial state the panel gives to the flamegraph state provider has the
  sorting preference \<^verbatim>\<open>'alphabetical'\<close> and the view preference \<^verbatim>\<open>'bottom up'\<close>, for every
  transaction and every value of the hooks.
\<close>

theorem C5_initial_preferences:
  "sorting (initialState (AggregateFlamegraphPanel tr h)) = ''alphabetical'' \<and>
   view (initialState (AggregateFlamegraphPanel tr h)) = ''bottom up''"
  by (simp add: initialState_eq)

text \<open>
  \<^bold>\<open>C10.\<close> When the query is not loading and has no result object (\<^verbatim>\<open>data\<close> undefined),
  \<^verbatim>\<open>isEmpty\<close> is false, the flamegraph element is rendered and the provider's \<^verbatim>\<open>input\<close>
  is null.  For every query result, the empty-state warning is rendered exactly when the
  query is not loading and a result object is present whose shared frames list has length
  zero.
\<close>

theorem C10_absent_result_is_not_empty:
  assumes "aggregateFlamegraphQuery h (queryParamsOf tr h) = r"
  shows "(data r = None \<and> \<not> isLoading r \<longrightarrow>
            \<not> isEmpty (data r) \<and>
            body (AggregateFlamegraphPanel tr h) =
              DeprecatedAggregateFlamegraph (hideSystemFramesOf h) \<and>
            input (AggregateFlamegraphPanel tr h) = None) \<and>
         (body (AggregateFlamegraphPanel tr h) = EmptyStateWarning) =
            (\<not> isLoading r \<and> (\<exists>d. data r = Some d \<and> length (frames (shared d)) = 0))"
  using assms by (auto simp add: body_cases input_eq isEmpty_def split: option.splits)

theorem C10_witness:
  "body (AggregateFlamegraphPanel ''tx'' (exampleHooks Map.empty (resultAbsent False)))
     = DeprecatedAggregateFlamegraph True
   \<and> input (AggregateFlamegraphPanel ''tx'' (exampleHooks Map.empty (resultAbsent False)))
     = None
   \<and> body (AggregateFlamegraphPanel ''tx'' (exampleHooks Map.empty (resultAbsent False)))
     \<noteq> EmptyStateWarning"
  using C10_absent_result_is_not_empty
      [of "exampleHooks Map.empty (resultAbsent False)" "''tx''" "resultAbsent False"]
  by (simp add: resultAbsent_def)

section \<open>Properties of the aggregation core\<close>

subsection \<open>The weight invariant\<close>

lemma totalWeight_insertPath [simp]: "totalWeight (insertPath p w n) = totalWeight n + w"
  by (cases p) simp_all

lemma selfWeight_insertPath:
  "selfWeight (insertPath p w n) = selfWeight n + (if p = [] then w else 0)"
  by (cases p) simp_all

lemma sum_total_updateChild:
  assumes "\<And>c. totalWeight (g c) = totalWeight c + w"
  shows "sum_list (map (\<lambda>kc. totalWeight (snd kc)) (updateChild x g cs)) =
         sum_list (map (\<lambda>kc. totalWeight (snd kc)) cs) + w"
  using assms by (induction cs) (auto simp: emptyNode_def)

lemma wellWeighted_updateChild:
  assumes "\<And>c. wellWeighted c \<Longrightarrow> wellWeighted (g c)"
    and "\<forall>kc \<in> set cs. wellWeighted (snd kc)"
  shows "\<forall>kc \<in> set (updateChild x g cs). wellWeighted (snd kc)"
  using assms by (induction cs) (fastforce simp: emptyNode_def split: if_splits)+

lemma wellWeighted_insertPath: "wellWeighted n \<Longrightarrow> wellWeighted (insertPath p w n)"
proof (induction p arbitrary: n)
  case Nil
  then show ?case by (cases n) simp
next
  case (Cons x xs)
  obtain s t cs where n: "n = Node s t cs" by (cases n)
  from Cons.prems n have t: "t = s + sum_list (map (\<lambda>kc. totalWeight (snd kc)) cs)"
    and cs: "\<forall>kc \<in> set cs. wellWeighted (snd kc)" by simp_all
  have "\<forall>kc \<in> set (updateChild x (insertPath xs w) cs). wellWeighted (snd kc)"
    using Cons.IH cs by (rule wellWeighted_updateChild)
  moreover have "sum_list (map (\<lambda>kc. totalWeight (snd kc)) (updateChild x (insertPath xs w) cs))
      = sum_list (map (\<lambda>kc. totalWeight (snd kc)) cs) + w"
    by (rule sum_total_updateChild) simp
  ultimately show ?case using t n by simp
qed

lemma wellWeighted_nodes:
  "wellWeighted t \<Longrightarrow> n \<in> set (nodes t) \<Longrightarrow>
     totalWeight n = selfWeight n + sum_list (map (\<lambda>kc. totalWeight (snd kc)) (children n))"
  by (induction t arbitrary: n rule: wellWeighted.induct) auto

lemma tree_fold_ingest:
  "tree (fold ingest ss r) = insertAll (accepted ss) (tree r)"
  by (induction ss arbitrary: r) (simp_all add: ingest_def accepted_def insertAll_def)

lemma diagnostics_fold_ingest:
  "diagnostics (fold ingest ss r) = diagnostics r @ map MalformedSample (filter malformed ss)"
  by (induction ss arbitrary: r) (simp_all add: ingest_def)

lemma tree_aggregate: "tree (aggregate ss) = insertAll (accepted ss) emptyNode"
  by (simp add: aggregate_def tree_fold_ingest)

lemma wellWeighted_insertAll: "wellWeighted t \<Longrightarrow> wellWeighted (insertAll ss t)"
  by (induction ss arbitrary: t) (simp_all add: insertAll_def wellWeighted_insertPath)

lemma totalWeight_insertAll:
  "totalWeight (insertAll ss t) = totalWeight t + sum_list (map (\<lambda>s. weightOf (snd s)) ss)"
  by (induction ss arbitrary: t) (simp_all add: insertAll_def)

lemma wellWeighted_aggregate: "wellWeighted (tree (aggregate ss))"
  by (simp add: tree_aggregate wellWeighted_insertAll emptyNode_def)

subsection \<open>Weights by path\<close>

text \<open>What merging one path does to the node found at any path \<open>p\<close>: its self weight
  grows when \<open>p\<close> is the merged path, its total weight grows when \<open>p\<close> is a prefix of the
  merged path, and it exists afterwards when it did before or \<open>p\<close> is such a prefix.\<close>

lemma map_of_updateChild:
  "map_of (updateChild x g cs) y =
     (if y = x then Some (g (case map_of cs x of None \<Rightarrow> emptyNode | Some c \<Rightarrow> c))
      else map_of cs y)"
  by (induction cs) auto

lemma emptyNode_sel [simp]:
  "selfWeight emptyNode = 0" "totalWeight emptyNode = 0" "children emptyNode = []"
  by (simp_all add: emptyNode_def)

lemma nodeAt_emptyNode: "nodeAt emptyNode p = (if p = [] then Some emptyNode else None)"
  by (cases p) simp_all

lemma nodeAt_insertPath_Cons:
  "nodeAt (insertPath (y # q) w n) (x # p) =
     (if x = y then nodeAt (insertPath q w (childOr n y)) p else nodeAt n (x # p))"
  by (simp add: map_of_updateChild childOr_def)

lemma nodeAt_insertPath_Nil: "nodeAt (insertPath [] w n) (x # p) = nodeAt n (x # p)"
  by simp

lemma selfAt_childOr: "selfAt (childOr n x) p = selfAt n (x # p)"
  by (auto simp: selfAt_def childOr_def nodeAt_emptyNode split: option.splits)

lemma totalAt_childOr: "totalAt (childOr n x) p = totalAt n (x # p)"
  by (auto simp: totalAt_def childOr_def nodeAt_emptyNode split: option.splits)

lemma selfAt_insertPath:
  "selfAt (insertPath q w t) p = selfAt t p + (if p = q then w else 0)"
proof (induction q arbitrary: p t)
  case Nil
  show ?case by (cases p) (simp_all add: selfAt_def)
next
  case (Cons y q)
  show ?case
  proof (cases p)
    case Nil
    then show ?thesis by (simp add: selfAt_def)
  next
    case (Cons x p')
    have "selfAt (insertPath (y # q) w t) (x # p') =
        (if x = y then selfAt (insertPath q w (childOr t y)) p' else selfAt t (x # p'))"
      unfolding selfAt_def nodeAt_insertPath_Cons by simp
    then show ?thesis using Cons Cons.IH [of "childOr t y" p']
      by (simp add: selfAt_childOr)
  qed
qed

lemma totalAt_insertPath:
  "totalAt (insertPath q w t) p = totalAt t p + (if prefix p q then w else 0)"
proof (induction q arbitrary: p t)
  case Nil
  show ?case by (cases p) (simp_all add: totalAt_def)
next
  case (Cons y q)
  show ?case
  proof (cases p)
    case Nil
    then show ?thesis by (simp add: totalAt_def)
  next
    case (Cons x p')
    have "totalAt (insertPath (y # q) w t) (x # p') =
        (if x = y then totalAt (insertPath q w (childOr t y)) p' else totalAt t (x # p'))"
      unfolding totalAt_def nodeAt_insertPath_Cons by simp
    then show ?thesis using Cons Cons.IH [of "childOr t y" p']
      by (simp add: totalAt_childOr)
  qed
qed

lemma present_childOr: "present (childOr n x) p = (present n (x # p) \<or> p = [])"
  by (auto simp: present_def childOr_def nodeAt_emptyNode split: option.splits)

lemma present_insertPath:
  "present (insertPath q w t) p = (present t p \<or> prefix p q)"
proof (induction q arbitrary: p t)
  case Nil
  show ?case by (cases p) (simp_all add: present_def)
next
  case (Cons y q)
  show ?case
  proof (cases p)
    case Nil
    then show ?thesis by (simp add: present_def)
  next
    case (Cons x p')
    have "present (insertPath (y # q) w t) (x # p') =
        (if x = y then present (insertPath q w (childOr t y)) p' else present t (x # p'))"
      unfolding present_def nodeAt_insertPath_Cons by simp
    then show ?thesis using Cons Cons.IH [of "childOr t y" p']
      by (auto simp add: present_childOr)
  qed
qed

lemma weightsAt_alt:
  "weightsAt t p = (if present t p then Some (selfAt t p, totalAt t p) else None)"
  by (auto simp: weightsAt_def present_def selfAt_def totalAt_def)

lemma selfAt_insertAll:
  "selfAt (insertAll ss t) p =
     selfAt t p + sum_list (map (\<lambda>s. if p = fst s then weightOf (snd s) else 0) ss)"
  by (induction ss arbitrary: t) (simp_all add: insertAll_def selfAt_insertPath)

lemma totalAt_insertAll:
  "totalAt (insertAll ss t) p =
     totalAt t p + sum_list (map (\<lambda>s. if prefix p (fst s) then weightOf (snd s) else 0) ss)"
  by (induction ss arbitrary: t) (simp_all add: insertAll_def totalAt_insertPath)

lemma present_insertAll:
  "present (insertAll ss t) p = (present t p \<or> (\<exists>s \<in> set ss. prefix p (fst s)))"
  by (induction ss arbitrary: t) (auto simp add: insertAll_def present_insertPath)

lemma sum_list_map_perm:
  fixes f :: "'a \<Rightarrow> real"
  assumes "mset xs = mset ys"
  shows "sum_list (map f xs) = sum_list (map f ys)"
proof -
  have "sum_list (map f xs) = sum_mset (image_mset f (mset xs))"
    by (simp flip: sum_mset_sum_list)
  also have "\<dots> = sum_mset (image_mset f (mset ys))" using assms by simp
  also have "\<dots> = sum_list (map f ys)" by (simp flip: sum_mset_sum_list)
  finally show ?thesis .
qed

lemma weightsAt_insertAll_perm:
  assumes "mset xs = mset ys"
  shows "weightsAt (insertAll xs t) p = weightsAt (insertAll ys t) p"
proof -
  have "set xs = set ys" using assms by (rule mset_eq_setD)
  then show ?thesis
    unfolding weightsAt_alt selfAt_insertAll totalAt_insertAll present_insertAll
    using sum_list_map_perm [OF assms] by simp
qed

lemma mset_accepted: "mset xs = mset ys \<Longrightarrow> mset (accepted xs) = mset (accepted ys)"
  unfolding accepted_def mset_filter by simp


subsection \<open>Canonical form\<close>

text \<open>Sibling keys stay distinct under merging, and two trees with distinct sibling keys
  that agree at every path have the same canonical form.\<close>

lemma map_fst_updateChild:
  "map fst (updateChild x g cs) = (if x \<in> fst ` set cs then map fst cs else map fst cs @ [x])"
  by (induction cs) (auto simp: rev_image_eqI)

lemma distinctKeys_updateChild:
  assumes "\<And>c. distinctKeys c \<Longrightarrow> distinctKeys (g c)"
    and "\<forall>kc \<in> set cs. distinctKeys (snd kc)"
  shows "\<forall>kc \<in> set (updateChild x g cs). distinctKeys (snd kc)"
  using assms by (induction cs) (fastforce simp: emptyNode_def split: if_splits)+

lemma distinctKeys_insertPath: "distinctKeys n \<Longrightarrow> distinctKeys (insertPath p w n)"
proof (induction p arbitrary: n)
  case Nil
  then show ?case by (cases n) simp
next
  case (Cons x xs)
  obtain s t cs where n: "n = Node s t cs" by (cases n)
  from Cons.prems n have d: "distinct (map fst cs)"
    and cs: "\<forall>kc \<in> set cs. distinctKeys (snd kc)" by simp_all
  have "\<forall>kc \<in> set (updateChild x (insertPath xs w) cs). distinctKeys (snd kc)"
    using Cons.IH cs by (rule distinctKeys_updateChild)
  moreover have "distinct (map fst (updateChild x (insertPath xs w) cs))"
    using d by (simp add: map_fst_updateChild)
  ultimately show ?case using n by simp
qed

lemma distinctKeys_insertAll: "distinctKeys t \<Longrightarrow> distinctKeys (insertAll ss t)"
  by (induction ss arbitrary: t) (simp_all add: insertAll_def distinctKeys_insertPath)

lemma distinctKeys_aggregate: "distinctKeys (tree (aggregate ss))"
  by (simp add: tree_aggregate distinctKeys_insertAll emptyNode_def)

lemma weightsAt_Nil: "weightsAt t [] = Some (selfWeight t, totalWeight t)"
  by (simp add: weightsAt_def)

lemma weightsAt_Cons:
  "weightsAt t (x # p) = (case map_of (children t) x of None \<Rightarrow> None | Some c \<Rightarrow> weightsAt c p)"
  by (simp add: weightsAt_def split: option.splits)

lemma sort_key_fst_unique:
  assumes "distinct (map fst xs)" and "distinct (map fst ys)" and "set xs = set ys"
  shows "sort_key fst xs = sort_key fst (ys :: (nat \<times> 'a) list)"
proof (rule map_sorted_distinct_set_unique [where f = fst])
  show "inj_on fst (set (sort_key fst xs) \<union> set (sort_key fst ys))"
    using assms by (simp add: distinct_map)
  show "distinct (map fst (sort_key fst xs))" using assms(1)
    by (metis distinct_map distinct_sort set_sort)
  show "distinct (map fst (sort_key fst ys))" using assms(2)
    by (metis distinct_map distinct_sort set_sort)
qed (use assms in simp_all)

lemma canonical_eqI:
  "distinctKeys t1 \<Longrightarrow> distinctKeys t2 \<Longrightarrow> (\<And>p. weightsAt t1 p = weightsAt t2 p) \<Longrightarrow>
     canonical t1 = canonical t2"
proof (induction t1 arbitrary: t2)
  case (Node s1 w1 cs1)
  obtain s2 w2 cs2 where t2: "t2 = Node s2 w2 cs2" by (cases t2)
  let ?f = "\<lambda>kc. (fst kc, canonical (snd kc))"
  from Node.prems(3) [of "[]"] t2 have sw: "s1 = s2" "w1 = w2"
    by (simp_all add: weightsAt_Nil)
  have d1: "distinct (map fst cs1)" and d2: "distinct (map fst cs2)"
    using Node.prems(1,2) t2 by simp_all
  have at: "(case map_of cs1 k of None \<Rightarrow> None | Some c \<Rightarrow> weightsAt c p) =
            (case map_of cs2 k of None \<Rightarrow> None | Some c \<Rightarrow> weightsAt c p)" for k p
    using Node.prems(3) [of "k # p"] t2 by (simp add: weightsAt_Cons)
  have sub: "(k, canonical c) \<in> ?f ` set cs2" if "(k, c) \<in> set cs1" for k c
  proof -
    from that d1 have m1: "map_of cs1 k = Some c" by simp
    from at [of "[]" k] m1 obtain c' where m2: "map_of cs2 k = Some c'"
      by (cases "map_of cs2 k") (simp_all add: weightsAt_Nil)
    then have in2: "(k, c') \<in> set cs2" by (rule map_of_SomeD)
    have "distinctKeys c" using Node.prems(1) that by auto
    moreover have "distinctKeys c'" using Node.prems(2) t2 in2 by auto
    moreover have "weightsAt c p = weightsAt c' p" for p using at [of p k] m1 m2 by simp
    ultimately have "canonical c = canonical c'"
      using Node.IH [of "(k, c)" c c'] that by simp
    then show ?thesis using in2 by force
  qed
  have sup: "(k, canonical c) \<in> ?f ` set cs1" if "(k, c) \<in> set cs2" for k c
  proof -
    from that d2 have m2: "map_of cs2 k = Some c" by simp
    from at [of "[]" k] m2 obtain c' where m1: "map_of cs1 k = Some c'"
      by (cases "map_of cs1 k") (simp_all add: weightsAt_Nil)
    then have in1: "(k, c') \<in> set cs1" by (rule map_of_SomeD)
    have "distinctKeys c'" using Node.prems(1) in1 by auto
    moreover have "distinctKeys c" using Node.prems(2) t2 that by auto
    moreover have "weightsAt c' p = weightsAt c p" for p using at [of p k] m1 m2 by simp
    ultimately have "canonical c' = canonical c"
      using Node.IH [of "(k, c')" c' c] in1 by simp
    then show ?thesis using in1 by force
  qed
  have "set (map ?f cs1) = set (map ?f cs2)" using sub sup by auto
  moreover have "distinct (map fst (map ?f cs1))" using d1 by (simp add: comp_def)
  moreover have "distinct (map fst (map ?f cs2))" using d2 by (simp add: comp_def)
  ultimately have "sort_key fst (map ?f cs1) = sort_key fst (map ?f cs2)"
    by (intro sort_key_fst_unique)
  then show ?case using sw t2 by simp
qed


subsection \<open>Projection\<close>

lemma totalWeight_fold_insertPath:
  "totalWeight (fold (\<lambda>x. insertPath (pa x) (wt x)) xs t) =
     totalWeight t + sum_list (map wt xs)"
  by (induction xs arbitrary: t) simp_all

lemma wellWeighted_fold_insertPath:
  "wellWeighted t \<Longrightarrow> wellWeighted (fold (\<lambda>x. insertPath (pa x) (wt x)) xs t)"
  by (induction xs arbitrary: t) (simp_all add: wellWeighted_insertPath)

lemma selfAt_fold_insertPath:
  "selfAt (fold (\<lambda>x. insertPath (pa x) (wt x)) xs t) p =
     selfAt t p + sum_list (map (\<lambda>x. if p = pa x then wt x else 0) xs)"
  by (induction xs arbitrary: t) (simp_all add: selfAt_insertPath)

lemma wellWeighted_emptyNode [simp]: "wellWeighted emptyNode"
  by (simp add: emptyNode_def)

lemma sum_list_map_concat:
  fixes f :: "'a \<Rightarrow> real"
  shows "sum_list (map f (concat (map g xs))) = sum_list (map (\<lambda>x. sum_list (map f (g x))) xs)"
  by (induction xs) simp_all

lemma sum_self_located:
  "wellWeighted t \<Longrightarrow> sum_list (map (\<lambda>pn. selfWeight (snd pn)) (located p t)) = totalWeight t"
proof (induction p t rule: located.induct)
  case (1 p s t cs)
  have "sum_list (map (\<lambda>pn. selfWeight (snd pn))
          (concat (map (\<lambda>kc. located (p @ [fst kc]) (snd kc)) cs)))
      = sum_list (map (\<lambda>kc. sum_list (map (\<lambda>pn. selfWeight (snd pn))
          (located (p @ [fst kc]) (snd kc)))) cs)"
    by (rule sum_list_map_concat)
  also have "\<dots> = sum_list (map (\<lambda>kc. totalWeight (snd kc)) cs)"
    using "1.IH" "1.prems" by (intro arg_cong [where f = sum_list] map_cong) simp_all
  finally show ?case using "1.prems" by simp
qed

lemma sum_list_filter_zero:
  fixes h :: "'a \<Rightarrow> real"
  assumes "\<And>x. \<not> P x \<Longrightarrow> h x = 0"
  shows "sum_list (map h (filter P xs)) = sum_list (map h xs)"
  using assms by (induction xs) simp_all

lemma totalWeight_reaggregate:
  "totalWeight (reaggregate f ps) = sum_list (map (\<lambda>pn. selfWeight (snd pn)) ps)"
  by (simp add: reaggregate_def totalWeight_fold_insertPath)

lemma wellWeighted_reaggregate: "wellWeighted (reaggregate f ps)"
  by (simp add: reaggregate_def wellWeighted_fold_insertPath)

lemma totalWeight_elide: "wellWeighted t \<Longrightarrow> totalWeight (elide keep t) = totalWeight t"
  by (simp add: elide_def totalWeight_reaggregate sum_self_located)

lemma totalWeight_invert: "wellWeighted t \<Longrightarrow> totalWeight (invert t) = totalWeight t"
proof -
  assume w: "wellWeighted t"
  have "sum_list (map (\<lambda>pn. selfWeight (snd pn)) (filter leafOccurring (located [] t)))
      = sum_list (map (\<lambda>pn. selfWeight (snd pn)) (located [] t))"
    by (rule sum_list_filter_zero) (simp add: leafOccurring_def)
  then show ?thesis using w by (simp add: invert_def totalWeight_reaggregate sum_self_located)
qed

lemma mset_insertSibling: "mset (insertSibling le x ys) = add_mset x (mset ys)"
  by (induction ys) simp_all

lemma mset_sorted_siblings: "mset (foldr (insertSibling le) xs []) = mset xs"
  by (induction xs) (simp_all add: mset_insertSibling)

lemma totalWeight_sortSiblings [simp]: "totalWeight (sortSiblings le t) = totalWeight t"
  by (cases t) simp

lemma selfWeight_sortSiblings [simp]: "selfWeight (sortSiblings le t) = selfWeight t"
  by (cases t) simp

lemma wellWeighted_sortSiblings: "wellWeighted t \<Longrightarrow> wellWeighted (sortSiblings le t)"
proof (induction le t rule: sortSiblings.induct)
  case (1 le s t cs)
  let ?cs = "map (\<lambda>kc. (fst kc, sortSiblings le (snd kc))) cs"
  let ?ss = "foldr (insertSibling le) ?cs []"
  have m: "mset ?ss = mset ?cs" by (rule mset_sorted_siblings)
  have "sum_list (map (\<lambda>kc. totalWeight (snd kc)) ?ss) =
        sum_list (map (\<lambda>kc. totalWeight (snd kc)) ?cs)"
    by (rule sum_list_map_perm [OF m])
  also have "\<dots> = sum_list (map (\<lambda>kc. totalWeight (snd kc)) cs)"
    by (simp add: comp_def)
  finally have sum: "sum_list (map (\<lambda>kc. totalWeight (snd kc)) ?ss) =
      sum_list (map (\<lambda>kc. totalWeight (snd kc)) cs)" .
  have "set ?ss = set ?cs" using m by (rule mset_eq_setD)
  then have "\<forall>kc \<in> set ?ss. wellWeighted (snd kc)"
    using "1.IH" "1.prems" by auto
  then show ?case using sum "1.prems" by simp
qed

lemma wellWeighted_project: "wellWeighted t \<Longrightarrow> wellWeighted (project frameOf t opts)"
  by (simp add: project_def Let_def wellWeighted_sortSiblings wellWeighted_reaggregate
      invert_def elide_def split: Orientation.splits option.splits)

lemma wellWeighted_invert: "wellWeighted (invert t)"
  by (simp add: invert_def wellWeighted_reaggregate)

lemma totalWeight_project: "wellWeighted t \<Longrightarrow> totalWeight (project frameOf t opts) = totalWeight t"
  by (simp add: project_def Let_def totalWeight_elide totalWeight_invert wellWeighted_invert
      split: Orientation.splits option.splits)

lemma selfAt_elide:
  "selfAt (elide keep t) q =
     sum_list (map (\<lambda>pn. if q = filter keep (fst pn) then selfWeight (snd pn) else 0)
       (located [] t))"
proof -
  have "selfAt emptyNode q = 0" by (simp add: selfAt_def nodeAt_emptyNode)
  then show ?thesis by (simp add: elide_def reaggregate_def selfAt_fold_insertPath)
qed


subsection \<open>The claims about aggregation and projection\<close>

lemma nodes_invariant_aggregate:
  "n \<in> set (nodes (tree (aggregate samples))) \<Longrightarrow>
     totalWeight n = selfWeight n + sum_list (map (\<lambda>kc. totalWeight (snd kc)) (children n))"
  using wellWeighted_aggregate by (rule wellWeighted_nodes)

lemma totalWeight_aggregate:
  "totalWeight (tree (aggregate samples)) =
     sum_list (map (\<lambda>s. weightOf (snd s)) (filter (\<lambda>s. \<not> malformed s) samples))"
  by (simp add: tree_aggregate totalWeight_insertAll accepted_def)

text \<open>
  \<^bold>\<open>C6.\<close> For every batch of samples, every node of the aggregated tree has a total weight
  equal to its self weight plus the sum of the total weights of its children, and the total
  weight of the root is the sum of the weights of the samples that are not malformed.
\<close>

theorem C6_total_weight_invariant:
  "(\<forall>n \<in> set (nodes (tree (aggregate samples))).
      totalWeight n = selfWeight n + sum_list (map (\<lambda>kc. totalWeight (snd kc)) (children n))) \<and>
   totalWeight (tree (aggregate samples)) =
     sum_list (map (\<lambda>s. weightOf (snd s)) (filter (\<lambda>s. \<not> malformed s) samples))"
  using nodes_invariant_aggregate totalWeight_aggregate by blast

theorem C6_witness:
  "totalWeight (tree (aggregate exampleBatch)) = 3 \<and>
   tree (aggregate exampleBatch) =
     Node 0 3 [(1, Node 0 3 [(2, Node 0 3 [(3, Node 1 1 []), (4, Node 2 2 [])])])]"
  using C6_total_weight_invariant [of exampleBatch]
  by (simp add: exampleBatch_def aggregate_def ingest_def malformed_def negative_def
      nonFinite_def emptyNode_def)

lemma map_of_sort_key_fst:
  assumes "distinct (map fst xs)"
  shows "map_of (sort_key fst xs) = map_of (xs :: (nat \<times> 'a) list)"
proof -
  have "distinct (map fst (sort_key fst xs))"
    using assms by (metis distinct_map distinct_sort set_sort)
  then show ?thesis using assms by (simp add: map_of_inject_set)
qed

lemma map_of_map_canonical:
  "map_of (map (\<lambda>kc. (fst kc, canonical (snd kc))) cs) k = map_option canonical (map_of cs k)"
  by (induction cs) auto

lemma children_canonical:
  "children (canonical t) =
     sort_key fst (map (\<lambda>kc. (fst kc, canonical (snd kc))) (children t))"
  by (cases t) simp

lemma nodeAt_canonical:
  "distinctKeys t \<Longrightarrow> nodeAt (canonical t) p = map_option canonical (nodeAt t p)"
proof (induction p arbitrary: t)
  case Nil
  show ?case by simp
next
  case (Cons x p)
  obtain s w cs where t: "t = Node s w cs" by (cases t)
  from Cons.prems t have d: "distinct (map fst cs)"
    and cs: "\<forall>kc \<in> set cs. distinctKeys (snd kc)" by simp_all
  have "distinct (map fst (map (\<lambda>kc. (fst kc, canonical (snd kc))) cs))"
    using d by (simp add: comp_def)
  then have m: "map_of (children (canonical t)) x = map_option canonical (map_of cs x)"
    unfolding children_canonical t by (simp add: map_of_sort_key_fst map_of_map_canonical)
  show ?case
  proof (cases "map_of cs x")
    case None
    then show ?thesis using m t by simp
  next
    case (Some c)
    then have "(x, c) \<in> set cs" by (rule map_of_SomeD)
    then have "distinctKeys c" using cs by auto
    then show ?thesis using Cons.IH [of c] m t Some by simp
  qed
qed

lemma weights_canonical [simp]:
  "selfWeight (canonical t) = selfWeight t" "totalWeight (canonical t) = totalWeight t"
  by (cases t, simp)+

lemma weightsAt_canonical: "distinctKeys t \<Longrightarrow> weightsAt (canonical t) = weightsAt t"
  by (rule ext) (simp add: weightsAt_def nodeAt_canonical option.map_comp comp_def)

lemma weightsAt_aggregate_perm_at:
  assumes "mset xs = mset ys"
  shows "weightsAt (tree (aggregate xs)) p = weightsAt (tree (aggregate ys)) p"
  unfolding tree_aggregate
  by (rule weightsAt_insertAll_perm [OF mset_accepted [OF assms]])

lemma canonical_aggregate_perm:
  assumes "mset xs = mset ys"
  shows "canonical (tree (aggregate xs)) = canonical (tree (aggregate ys))"
  by (rule canonical_eqI [OF distinctKeys_aggregate distinctKeys_aggregate
        weightsAt_aggregate_perm_at [OF assms]])

lemma weightsAt_aggregate_perm:
  assumes "mset xs = mset ys"
  shows "weightsAt (tree (aggregate xs)) = weightsAt (tree (aggregate ys))"
  by (rule ext) (rule weightsAt_aggregate_perm_at [OF assms])

text \<open>
  \<^bold>\<open>C7.\<close> Aggregating a batch and aggregating any permutation of it give the same tree in
  structure and weights: the same paths lead to a node in both, with the same self and total
  weight at each path, and the two trees have the same canonical form.  The order in which
  siblings were first inserted follows the order of the samples (see
  \<open>sibling_order_follows_insertion\<close> below); section 3 of the specification declares
  that order not meaningful, and the canonical form, which keeps every weight at its path
  (\<open>weightsAt_canonical\<close>), leaves it out.
\<close>

theorem C7_permutation_invariant:
  assumes "mset xs = mset ys"
  shows "canonical (tree (aggregate xs)) = canonical (tree (aggregate ys)) \<and>
         weightsAt (tree (aggregate xs)) = weightsAt (tree (aggregate ys))"
  using assms canonical_aggregate_perm weightsAt_aggregate_perm by blast

theorem C7_witness:
  "mset [([2], Finite 1), ([1, 3], Finite 2)] = mset [([1, 3], Finite 2), ([2], Finite 1)] \<and>
   canonical (tree (aggregate [([2], Finite 1), ([1, 3], Finite 2)])) =
     Node 0 3 [(1, Node 0 2 [(3, Node 2 2 [])]), (2, Node 1 1 [])] \<and>
   canonical (tree (aggregate [([1, 3], Finite 2), ([2], Finite 1)])) =
     Node 0 3 [(1, Node 0 2 [(3, Node 2 2 [])]), (2, Node 1 1 [])]"
  using C7_permutation_invariant
      [of "[([2], Finite 1), ([1, 3], Finite 2)]" "[([1, 3], Finite 2), ([2], Finite 1)]"]
  by (simp add: aggregate_def ingest_def malformed_def negative_def nonFinite_def
      emptyNode_def)

lemma sibling_order_follows_insertion:
  "tree (aggregate [([2], Finite 1), ([1, 3], Finite 2)]) \<noteq>
   tree (aggregate [([1, 3], Finite 2), ([2], Finite 1)])"
  by (simp add: aggregate_def ingest_def malformed_def negative_def nonFinite_def
      emptyNode_def)

lemma diagnostics_aggregate:
  "diagnostics (aggregate ss) = map MalformedSample (filter malformed ss)"
  unfolding aggregate_def diagnostics_fold_ingest by simp

lemma malformed_in_diagnostics:
  "malformed s \<Longrightarrow> MalformedSample s \<in> set (diagnostics (aggregate (xs @ s # ys)))"
  by (simp add: diagnostics_aggregate)

lemma malformed_no_effect:
  "malformed s \<Longrightarrow> tree (aggregate (xs @ s # ys)) = tree (aggregate (xs @ ys))"
  by (simp add: tree_aggregate accepted_def)

text \<open>
  \<^bold>\<open>C8.\<close> A sample with a negative or non-finite weight or with an empty stack, at any
  position of a batch, is reported as \<open>MalformedSample\<close> in the diagnostics of the result
  and counted there once; the tree is the tree of the batch without that sample, so the
  sample adds nothing to any weight; every node of the tree satisfies the weight invariant
  and the root's total weight is the sum of the accepted weights.  Aggregation has no
  failing outcome: \<open>aggregate\<close> returns a result for every batch.
\<close>

theorem C8_malformed_sample_rejected:
  assumes "negative (snd s) \<or> nonFinite (snd s) \<or> fst s = []"
  shows "MalformedSample s \<in> set (diagnostics (aggregate (xs @ s # ys))) \<and>
         tree (aggregate (xs @ s # ys)) = tree (aggregate (xs @ ys)) \<and>
         (\<forall>n \<in> set (nodes (tree (aggregate (xs @ s # ys)))).
            totalWeight n =
              selfWeight n + sum_list (map (\<lambda>kc. totalWeight (snd kc)) (children n))) \<and>
         totalWeight (tree (aggregate (xs @ s # ys))) =
           sum_list (map (\<lambda>x. weightOf (snd x)) (filter (\<lambda>x. \<not> malformed x) (xs @ ys))) \<and>
         length (diagnostics (aggregate (xs @ s # ys))) =
           Suc (length (diagnostics (aggregate (xs @ ys))))"
proof -
  from assms have m: "malformed s" by (simp add: malformed_def)
  have "length (diagnostics (aggregate (xs @ s # ys))) =
      Suc (length (diagnostics (aggregate (xs @ ys))))"
    using m by (simp add: diagnostics_aggregate)
  moreover have "totalWeight (tree (aggregate (xs @ s # ys))) =
      sum_list (map (\<lambda>x. weightOf (snd x)) (filter (\<lambda>x. \<not> malformed x) (xs @ ys)))"
    unfolding malformed_no_effect [OF m] by (rule totalWeight_aggregate)
  ultimately show ?thesis
    using malformed_in_diagnostics [OF m] malformed_no_effect [OF m]
      nodes_invariant_aggregate by blast
qed

theorem C8_witness:
  "fst ([] :: FrameId list, Finite 3) = [] \<and>
   diagnostics (aggregate ([([1], Finite 1)] @ ([], Finite 3) # [([1, 2], Finite 2)])) =
     [MalformedSample ([], Finite 3)] \<and>
   tree (aggregate ([([1], Finite 1)] @ ([], Finite 3) # [([1, 2], Finite 2)])) =
     Node 0 3 [(1, Node 1 3 [(2, Node 2 2 [])])] \<and>
   tree (aggregate ([([1], Finite 1)] @ [([1, 2], Finite 2)])) =
     Node 0 3 [(1, Node 1 3 [(2, Node 2 2 [])])]"
  using C8_malformed_sample_rejected
      [of "([], Finite 3)" "[([1], Finite 1)]" "[([1, 2], Finite 2)]"]
  by (simp add: aggregate_def ingest_def malformed_def negative_def nonFinite_def
      emptyNode_def)

lemma nodes_invariant_project:
  "n \<in> set (nodes (project frameOf (tree (aggregate samples)) opts)) \<Longrightarrow>
     totalWeight n = selfWeight n + sum_list (map (\<lambda>kc. totalWeight (snd kc)) (children n))"
  using wellWeighted_project [OF wellWeighted_aggregate] by (rule wellWeighted_nodes)

lemma totalWeight_project_aggregate:
  "totalWeight (project frameOf (tree (aggregate samples)) opts) =
     totalWeight (tree (aggregate samples))"
  by (simp add: totalWeight_project wellWeighted_aggregate)

text \<open>
  \<^bold>\<open>C9.\<close> For every aggregated tree, every frame table and every orientation and sort
  order, the view projected with the application-frames-only filter has the root total
  weight of the aggregated tree, and every node of the view satisfies the weight invariant.
  The self weight the filter leaves at a path \<open>q\<close> is the sum of the self weights of all
  nodes whose path, with the frames that fail the filter taken out, is \<open>q\<close>: the weight of
  an elided node is added to its nearest surviving ancestor, and to the root (\<open>q = []\<close>)
  when no ancestor survives.
\<close>

theorem C9_filter_conserves_weight:
  "totalWeight (project frameOf (tree (aggregate samples))
      \<lparr>orientation = ori, sort' = order, frameFilter' = Some applicationFrameOnly\<rparr>) =
     totalWeight (tree (aggregate samples)) \<and>
   (\<forall>n \<in> set (nodes (project frameOf (tree (aggregate samples))
        \<lparr>orientation = ori, sort' = order, frameFilter' = Some applicationFrameOnly\<rparr>)).
      totalWeight n =
        selfWeight n + sum_list (map (\<lambda>kc. totalWeight (snd kc)) (children n))) \<and>
   (\<forall>q. selfAt (elide (\<lambda>i. applicationFrameOnly (frameOf i)) (tree (aggregate samples))) q =
      sum_list (map (\<lambda>pn. if q = filter (\<lambda>i. applicationFrameOnly (frameOf i)) (fst pn)
                          then selfWeight (snd pn) else 0)
        (located [] (tree (aggregate samples)))))"
  using totalWeight_project_aggregate nodes_invariant_project selfAt_elide by blast

lemma aggregate_exampleSamples:
  "tree (aggregate exampleSamples) =
     Node 0 15
       [(1, Node 0 3 [(2, Node 0 3 [(3, Node 1 1 []), (4, Node 2 2 [])])]),
        (2, Node 0 4 [(3, Node 4 4 [])]), (4, Node 8 8 [])]"
  by (simp add: exampleSamples_def aggregate_def ingest_def malformed_def negative_def
      nonFinite_def emptyNode_def)

theorem C9_witness:
  "totalWeight (tree (aggregate exampleSamples)) = 15 \<and>
   project exampleFrames (tree (aggregate exampleSamples))
       \<lparr>orientation = topDown, sort' = alphabetical,
        frameFilter' = Some applicationFrameOnly\<rparr> =
     Node 8 15 [(3, Node 4 4 []), (1, Node 2 3 [(3, Node 1 1 [])])] \<and>
   project exampleFrames (tree (aggregate exampleSamples))
       \<lparr>orientation = bottomUp, sort' = weight,
        frameFilter' = Some applicationFrameOnly\<rparr> =
     Node 8 15 [(3, Node 4 5 [(1, Node 1 1 [])]), (1, Node 2 2 [])]"
  using C9_filter_conserves_weight [of exampleFrames exampleSamples topDown alphabetical]
    C9_filter_conserves_weight [of exampleFrames exampleSamples bottomUp weight]
  by (simp add: aggregate_exampleSamples project_def elide_def invert_def leafOccurring_def
      reaggregate_def emptyNode_def exampleFrames_def applicationFrameOnly_def before_def
      lowerCode_def)

subsection \<open>Interactions\<close>






end
